theory Spec2Isabelle
  imports Main
begin

section \<open>The build manifest of pyCroscopy (setup.py)\<close>

text \<open>
  The repository's only source file is \<^verbatim>\<open>setup.py\<close>. It computes the directory of the
  script, reads \<^verbatim>\<open>README.md\<close> from it, and calls \<^verbatim>\<open>setuptools.setup\<close> with keyword
  arguments that are literals, except \<^verbatim>\<open>long_description\<close> (the text read) and
  \<^verbatim>\<open>packages\<close> (the result of \<^verbatim>\<open>find_packages(exclude='tests')\<close>).

  The script is modelled on Python 3 and POSIX, the interpreter of the setuptools whose
  \<^verbatim>\<open>find_packages\<close> is followed below. \<^verbatim>\<open>codecs.open\<close> without an encoding is the builtin
  \<^verbatim>\<open>open\<close> in text mode, so \<^verbatim>\<open>f.read()\<close> decodes the bytes of the file in the locale's
  encoding, taken to be UTF-8, and rewrites every line ending to a line feed. The three
  imports are taken to succeed and \<^verbatim>\<open>__file__\<close> to be bound; the model ends where
  \<^verbatim>\<open>setup\<close> is called, with the keyword arguments it is called with.
\<close>

subsection \<open>Strings\<close>

definition startswith :: "string \<Rightarrow> string \<Rightarrow> bool" where
  "startswith s p = (take (length p) s = p)"

definition endswith :: "string \<Rightarrow> string \<Rightarrow> bool" where
  "endswith s p = (length p \<le> length s \<and> drop (length s - length p) s = p)"

definition rstrip :: "char \<Rightarrow> string \<Rightarrow> string" where
  "rstrip c s = rev (dropWhile (\<lambda>x. x = c) (rev s))"

text \<open>\<^verbatim>\<open>s.split(sep)\<close> for a separator of one character: never the empty list.\<close>

fun str_split :: "char \<Rightarrow> string \<Rightarrow> string list" where
  "str_split sep [] = [[]]"
| "str_split sep (x # xs) =
     (if x = sep then [] # str_split sep xs
      else (case str_split sep xs of
              [] \<Rightarrow> [[x]]
            | w # ws \<Rightarrow> (x # w) # ws))"

text \<open>\<^verbatim>\<open>sep.join(parts)\<close>.\<close>

fun str_join :: "string \<Rightarrow> string list \<Rightarrow> string" where
  "str_join sep [] = []"
| "str_join sep [w] = w"
| "str_join sep (w # v # ws) = w @ sep @ str_join sep (v # ws)"

subsection \<open>Text read from a file\<close>

text \<open>
  The text a file gives is a list of code points; the bytes of a file are characters
  of eight bits, read as numbers by \<open>byte_values\<close>. A literal of the script holds ASCII
  only and is kept as the characters the source writes.
\<close>

type_synonym unicode = "nat list"

definition byte_values :: "string \<Rightarrow> nat list" where
  "byte_values s = map of_char s"

text \<open>
  The strict UTF-8 decoder: one to four bytes a code point, no overlong form, no
  surrogate, nothing above \<^verbatim>\<open>U+10FFFF\<close>, no truncated sequence. \<open>None\<close> is the decoder's
  \<^verbatim>\<open>UnicodeDecodeError\<close>.
\<close>

definition is_continuation :: "nat \<Rightarrow> bool" where
  "is_continuation b = (0x80 \<le> b \<and> b \<le> 0xBF)"

fun utf8_decode :: "nat list \<Rightarrow> unicode option" where
  "utf8_decode [] = Some []"
| "utf8_decode (b # bs) =
     (if b < 0x80 then map_option ((#) b) (utf8_decode bs)
      else if 0xC2 \<le> b \<and> b \<le> 0xDF then
        (case bs of
           c1 # r \<Rightarrow>
             if is_continuation c1
             then map_option ((#) ((b - 0xC0) * 0x40 + (c1 - 0x80))) (utf8_decode r)
             else None
         | _ \<Rightarrow> None)
      else if 0xE0 \<le> b \<and> b \<le> 0xEF then
        (case bs of
           c1 # c2 # r \<Rightarrow>
             if is_continuation c1 \<and> is_continuation c2
                \<and> (if b = 0xE0 then 0xA0 \<le> c1 else True)
                \<and> (if b = 0xED then c1 \<le> 0x9F else True)
             then map_option
                    ((#) ((b - 0xE0) * 0x1000 + (c1 - 0x80) * 0x40 + (c2 - 0x80)))
                    (utf8_decode r)
             else None
         | _ \<Rightarrow> None)
      else if 0xF0 \<le> b \<and> b \<le> 0xF4 then
        (case bs of
           c1 # c2 # c3 # r \<Rightarrow>
             if is_continuation c1 \<and> is_continuation c2 \<and> is_continuation c3
                \<and> (if b = 0xF0 then 0x90 \<le> c1 else True)
                \<and> (if b = 0xF4 then c1 \<le> 0x8F else True)
             then map_option
                    ((#) ((b - 0xF0) * 0x40000 + (c1 - 0x80) * 0x1000
                          + (c2 - 0x80) * 0x40 + (c3 - 0x80)))
                    (utf8_decode r)
             else None
         | _ \<Rightarrow> None)
      else None)"

text \<open>
  Universal newlines, the text mode's default: a carriage return followed by a line
  feed, and a carriage return alone, are each read as one line feed.
\<close>

fun universal_newlines :: "unicode \<Rightarrow> unicode" where
  "universal_newlines [] = []"
| "universal_newlines [c] = [if c = 13 then 10 else c]"
| "universal_newlines (c # d # cs) =
     (if c = 13 \<and> d = 10 then 10 # universal_newlines cs
      else if c = 13 then 10 # universal_newlines (d # cs)
      else c # universal_newlines (d # cs))"

subsection \<open>posixpath: isabs, join, dirname, normpath, abspath\<close>

text \<open>
  The path functions of the standard library that the script calls through
  \<^verbatim>\<open>from os import path\<close>, each written after the library's body.
\<close>

definition isabs :: "string \<Rightarrow> bool" where
  "isabs s = startswith s ''/''"

definition join :: "string \<Rightarrow> string \<Rightarrow> string" where
  "join a b =
     (if startswith b ''/'' then b
      else if a = [] \<or> endswith a ''/'' then a @ b
      else a @ ''/'' @ b)"

text \<open>
  \<^verbatim>\<open>i = p.rfind('/') + 1; head = p[:i]\<close>: the part of \<open>p\<close> up to and including its last
  slash, empty when there is none.
\<close>

definition upto_last_slash :: "string \<Rightarrow> string" where
  "upto_last_slash p = rev (dropWhile (\<lambda>x. x \<noteq> CHR ''/'') (rev p))"

definition dirname :: "string \<Rightarrow> string" where
  "dirname p =
     (let head = upto_last_slash p
      in if head \<noteq> [] \<and> head \<noteq> replicate (length head) CHR ''/''
         then rstrip CHR ''/'' head
         else head)"

definition basename :: "string \<Rightarrow> string" where
  "basename p = rev (takeWhile (\<lambda>x. x \<noteq> CHR ''/'') (rev p))"

text \<open>
  The loop of \<^verbatim>\<open>normpath\<close> over the components: \<open>new_comps\<close> is the list built so far,
  appended to and popped at its end.
\<close>

fun normpath_loop :: "nat \<Rightarrow> string list \<Rightarrow> string list \<Rightarrow> string list" where
  "normpath_loop initial_slashes new_comps [] = new_comps"
| "normpath_loop initial_slashes new_comps (c # comps) =
     (if c = [] \<or> c = ''.'' then normpath_loop initial_slashes new_comps comps
      else if c \<noteq> ''..'' \<or> (initial_slashes = 0 \<and> new_comps = [])
              \<or> (new_comps \<noteq> [] \<and> last new_comps = ''..'')
        then normpath_loop initial_slashes (new_comps @ [c]) comps
      else if new_comps \<noteq> [] then normpath_loop initial_slashes (butlast new_comps) comps
      else normpath_loop initial_slashes new_comps comps)"

definition count_initial_slashes :: "string \<Rightarrow> nat" where
  "count_initial_slashes path =
     (if startswith path ''/''
      then (if startswith path ''//'' \<and> \<not> startswith path ''///'' then 2 else 1)
      else 0)"

definition normpath :: "string \<Rightarrow> string" where
  "normpath path =
     (if path = [] then ''.''
      else
        let initial_slashes = count_initial_slashes path;
            comps = normpath_loop initial_slashes [] (str_split CHR ''/'' path);
            joined = str_join ''/'' comps;
            res = (if initial_slashes \<noteq> 0
                   then replicate initial_slashes CHR ''/'' @ joined
                   else joined)
        in if res = [] then ''.'' else res)"

text \<open>\<^verbatim>\<open>abspath\<close> reads the working directory of the process: it is a parameter here.\<close>

definition abspath :: "string \<Rightarrow> string \<Rightarrow> string" where
  "abspath getcwd path = normpath (if \<not> isabs path then join getcwd path else path)"

text \<open>
  Auxiliary notions for the path functions: a run of slashes; a list of components
  that are names (not empty, no slash in them); a path whose last component names a
  file, as the path of a script does (not empty, not \<^verbatim>\<open>.\<close>, not \<^verbatim>\<open>..\<close>).
\<close>

definition slashes :: "nat \<Rightarrow> string" where
  "slashes n = replicate n CHR ''/''"

definition plain_names :: "string list \<Rightarrow> bool" where
  "plain_names ws = list_all (\<lambda>w. w \<noteq> [] \<and> CHR ''/'' \<notin> set w) ws"

definition names_a_file :: "string \<Rightarrow> bool" where
  "names_a_file p = (basename p \<noteq> [] \<and> basename p \<noteq> ''.'' \<and> basename p \<noteq> ''..'')"

subsection \<open>The file system\<close>

text \<open>
  A directory tree. A regular file carries its bytes and how it answers a reader:
  it can be read, the process has no permission to open it, or it opens and the read
  fails with an I/O error.
\<close>

datatype access = Readable | Denied | Faulty

datatype node = File access string | Dir "(string \<times> node) list"

datatype errno = ENOENT | EACCES | EISDIR | ENOTDIR | EIO

text \<open>
  The exceptions of a run. \<^verbatim>\<open>OSError\<close> (of which \<^verbatim>\<open>IOError\<close> is another name, and
  \<^verbatim>\<open>FileNotFoundError\<close>, \<^verbatim>\<open>PermissionError\<close>, \<^verbatim>\<open>IsADirectoryError\<close> and
  \<^verbatim>\<open>NotADirectoryError\<close> the subclasses by error number) carries the file name when the
  failing call was given one. \<^verbatim>\<open>UnicodeDecodeError\<close>, a \<^verbatim>\<open>ValueError\<close>, carries the name of
  the encoding.
\<close>

datatype pyerror = OSError errno "string option" | UnicodeDecodeError string

text \<open>
  Path resolution by the operating system, from a directory \<open>n\<close> whose ancestors are
  \<open>up\<close> (nearest first), along the components of a path.
\<close>

fun resolve :: "node list \<Rightarrow> node \<Rightarrow> string list \<Rightarrow> errno + node" where
  "resolve up n [] = Inr n"
| "resolve up (File a s) (c # cs) = Inl ENOTDIR"
| "resolve up (Dir es) (c # cs) =
     (if c = ''.'' then resolve up (Dir es) cs
      else if c = ''..'' then
        (case up of
           [] \<Rightarrow> resolve [] (Dir es) cs
         | u # us \<Rightarrow> resolve us u cs)
      else
        (case map_of es c of
           None \<Rightarrow> Inl ENOENT
         | Some m \<Rightarrow> resolve (Dir es # up) m cs))"

definition path_comps :: "string \<Rightarrow> string list" where
  "path_comps p = filter (\<lambda>c. c \<noteq> []) (str_split CHR ''/'' p)"

text \<open>
  The shape of a tree: its directories and the names in them, every regular file
  emptied and made readable. Two trees of one shape differ only in what their files
  hold and in whether they can be read.
\<close>

primrec shape :: "node \<Rightarrow> node" where
  "shape (File a s) = File Readable []"
| "shape (Dir es) = Dir (map (map_prod id shape) es)"

text \<open>The environment of one run of the script.\<close>

record env =
  fs :: node
  cwd :: string
  script_file :: string

text \<open>
  What an absolute path names in a tree, and what a path names for the process: a
  relative path starts at the working directory.
\<close>

definition file_at :: "node \<Rightarrow> string \<Rightarrow> errno + node" where
  "file_at root p = resolve [] root (path_comps p)"

definition os_stat :: "env \<Rightarrow> string \<Rightarrow> errno + node" where
  "os_stat e p = file_at (fs e) (join (cwd e) p)"

text \<open>
  \<^verbatim>\<open>codecs.open(p)\<close>: mode \<^verbatim>\<open>'r'\<close>, no encoding, so the builtin \<^verbatim>\<open>open\<close> in text mode. The
  handle is the file's state and bytes; a failure names the path.
\<close>

definition codecs_open :: "env \<Rightarrow> string \<Rightarrow> pyerror + (access \<times> string)" where
  "codecs_open e p =
     (case os_stat e p of
        Inl en \<Rightarrow> Inl (OSError en (Some p))
      | Inr (Dir es) \<Rightarrow> Inl (OSError EISDIR (Some p))
      | Inr (File Denied s) \<Rightarrow> Inl (OSError EACCES (Some p))
      | Inr (File a s) \<Rightarrow> Inr (a, s))"

text \<open>
  \<^verbatim>\<open>f.read()\<close> on the handle: the bytes are read (a fault of the device is an
  \<^verbatim>\<open>OSError\<close> with no file name), decoded as UTF-8 with errors strict, and the line
  endings of the decoded text rewritten.
\<close>

definition file_read :: "access \<times> string \<Rightarrow> pyerror + unicode" where
  "file_read f =
     (case f of
        (Readable, bytes) \<Rightarrow>
          (case utf8_decode (byte_values bytes) of
             None \<Rightarrow> Inl (UnicodeDecodeError ''utf-8'')
           | Some decoded \<Rightarrow> Inr (universal_newlines decoded))
      | (a, bytes) \<Rightarrow> Inl (OSError EIO None))"

subsection \<open>setuptools: find_packages\<close>

text \<open>
  \<^verbatim>\<open>find_packages\<close> is the library's, not the repository's; the script only calls it. The
  model follows the library's \<^verbatim>\<open>PackageFinder\<close>: it walks the directories under
  \<open>where\<close> top-down, names each directory by its path from \<open>where\<close> with dots for
  slashes, skips (with all below it) a directory whose own name has a dot or that holds
  no regular file \<^verbatim>\<open>__init__.py\<close>, and yields a name when it matches a pattern of
  \<open>include\<close> and none of \<^verbatim>\<open>('ez_setup', '*__pycache__', *exclude)\<close>.

  \<^verbatim>\<open>fnmatchcase\<close>: \<^verbatim>\<open>*\<close> matches any run of characters, \<^verbatim>\<open>?\<close> any one character, any
  other character itself. (Bracket sets are left out: no pattern of this script has one.)
\<close>

fun fnmatchcase :: "string \<Rightarrow> string \<Rightarrow> bool" where
  "fnmatchcase [] [] = True"
| "fnmatchcase (c # cs) [] = False"
| "fnmatchcase [] (p # ps) = (p = CHR ''*'' \<and> fnmatchcase [] ps)"
| "fnmatchcase (c # cs) (p # ps) =
     (if p = CHR ''*'' then fnmatchcase (c # cs) ps \<or> fnmatchcase cs (p # ps)
      else if p = CHR ''?'' then fnmatchcase cs ps
      else c = p \<and> fnmatchcase cs ps)"

text \<open>\<^verbatim>\<open>_Filter(*patterns)\<close> called on an item.\<close>

definition filter_matches :: "string list \<Rightarrow> string \<Rightarrow> bool" where
  "filter_matches patterns item = list_ex (\<lambda>pat. fnmatchcase item pat) patterns"

text \<open>
  The argument \<open>exclude\<close> is any iterable of strings, and the library unpacks it with
  \<^verbatim>\<open>*exclude\<close>. A list gives its elements; a string gives its characters, each a
  string of length one.
\<close>

datatype pyarg = Str string | StrList "string list"

fun unpack :: "pyarg \<Rightarrow> string list" where
  "unpack (Str s) = map (\<lambda>c. [c]) s"
| "unpack (StrList xs) = xs"

definition ALWAYS_EXCLUDE :: "string list" where
  "ALWAYS_EXCLUDE = [''ez_setup'', ''*__pycache__'']"

definition looks_like_package :: "node \<Rightarrow> bool" where
  "looks_like_package n =
     (case n of
        File a s \<Rightarrow> False
      | Dir es \<Rightarrow> (case map_of es ''__init__.py'' of
                    Some (File a s) \<Rightarrow> True
                  | _ \<Rightarrow> False))"

definition is_dir :: "node \<Rightarrow> bool" where
  "is_dir n = (case n of Dir es \<Rightarrow> True | File a s \<Rightarrow> False)"

definition package_name :: "string \<Rightarrow> string \<Rightarrow> string" where
  "package_name rel d = (if rel = [] then d else rel @ ''.'' @ d)"

text \<open>
  One directory of the walk: \<open>rel\<close> is the dotted name of the directory walked (empty
  at \<open>where\<close>). The packages among its subdirectories come first, then what the walk
  finds below each subdirectory that is kept, in the order of the listing.
\<close>

definition kept_dirs :: "(string \<times> node) list \<Rightarrow> (string \<times> node) list" where
  "kept_dirs es =
     filter (\<lambda>e. is_dir (snd e) \<and> CHR ''.'' \<notin> set (fst e) \<and> looks_like_package (snd e)) es"

lemma kept_dirs_size:
  "(a, b) \<in> set (kept_dirs es) \<Longrightarrow> size b < Suc (size_list (size_prod (\<lambda>x. 0) size) es)"
  unfolding kept_dirs_def
  by (induction es) (auto simp: less_Suc_eq split: if_splits)

function find_iter :: "string list \<Rightarrow> string list \<Rightarrow> string \<Rightarrow> node \<Rightarrow> string list" where
  "find_iter exclude include rel (File a s) = []"
| "find_iter exclude include rel (Dir es) =
     filter (\<lambda>package. filter_matches include package \<and> \<not> filter_matches exclude package)
       (map (\<lambda>e. package_name rel (fst e)) (kept_dirs es))
     @ concat (map (\<lambda>e.
         if package_name rel (fst e) @ ''*'' \<in> set exclude
            \<or> package_name rel (fst e) @ ''.*'' \<in> set exclude
         then []
         else find_iter exclude include (package_name rel (fst e)) (snd e)) (kept_dirs es))"
  by pat_completeness auto
termination
  apply (relation "measure (\<lambda>(ex, inc, rel, n). size n)")
   apply simp
  apply (auto dest: kept_dirs_size)
  done

text \<open>
  \<^verbatim>\<open>find_packages(where, exclude)\<close> with the default \<^verbatim>\<open>include=('*',)\<close>. An empty
  \<open>exclude\<close> is replaced by the finder's default, which is empty too. A directory that
  cannot be listed yields nothing (\<^verbatim>\<open>os.walk\<close> ignores the error).
\<close>

definition find_packages :: "env \<Rightarrow> string \<Rightarrow> pyarg \<Rightarrow> string list" where
  "find_packages e where_dir exclude =
     (case os_stat e where_dir of
        Inl en \<Rightarrow> []
      | Inr n \<Rightarrow> find_iter (ALWAYS_EXCLUDE @ unpack exclude) [''*''] [] n)"

subsection \<open>The script\<close>

text \<open>The keyword arguments of the call of \<^verbatim>\<open>setup\<close>, one field each.\<close>

record setup_kwargs =
  name :: string
  version :: string
  description :: string
  long_description :: unicode
  classifiers :: "string list"
  packages :: "string list"
  url :: string
  license :: string
  author :: string
  author_email :: string
  dependency :: string
  dependency_links :: "string list"
  install_requires :: "string list"
  test_suite :: string
  tests_require :: string
  include_package_data :: bool

text \<open>The calls the script makes outside itself, in the order it makes them.\<close>

datatype call =
    CodecsOpen string
  | FileRead string
  | FileClose string
  | FindPackages string pyarg
  | Setup setup_kwargs

text \<open>
  The keyword arguments as the call writes them: every one a literal but
  \<open>long_description\<close> and \<open>packages\<close>.
\<close>

definition setup_call :: "unicode \<Rightarrow> string list \<Rightarrow> setup_kwargs" where
  "setup_call long_description_read found_packages =
     \<lparr> name = ''pyCroscopy'',
       version = ''0.0a1'',
       description = ''A suite of Python libraries for high performance scientific computing of microscopy data.'',
       long_description = long_description_read,
       classifiers =
         [''Development Status :: 2 - Pre-Alpha'',
          ''Environment :: Console'',
          ''Intended Audience :: Science/Research'',
          ''License :: OSI Approved :: MIT License'',
          ''Natural Language :: English'',
          ''Operating System :: OS Independent'',
          ''Programming Language :: Cython'',
          ''Programming Language :: Python :: 2.7'',
          ''Programming Language :: Python :: Implementation :: CPython'',
          ''Topic :: Scientific/Engineering :: Chemistry'',
          ''Topic :: Scientific / Engineering :: Information Analysis'',
          ''Topic :: Scientific/Engineering :: Physics''],
       packages = found_packages,
       url = ''http://github.com/pycroscopy/pyCroscopy'',
       license = ''MIT'',
       author = ''S. Somnath, C. Ryan, N. Laanait'',
       author_email = ''pycroscopy@gmail.com'',
       dependency = [],
       dependency_links = [[]],
       install_requires = [[]],
       test_suite = ''nose.collector'',
       tests_require = ''Nose'',
       include_package_data = True \<rparr>"

text \<open>\<^verbatim>\<open>here = path.abspath(path.dirname(__file__))\<close> and the path the script opens.\<close>

definition here :: "env \<Rightarrow> string" where
  "here e = abspath (cwd e) (dirname (script_file e))"

definition readme_path :: "env \<Rightarrow> string" where
  "readme_path e = join (here e) ''README.md''"

text \<open>
  The script, top to bottom. The \<^verbatim>\<open>with\<close> block closes the file whether the read
  returns or raises; an exception ends the script where it is raised. The result is the
  calls made and either the exception or the keyword arguments \<^verbatim>\<open>setup\<close> was called with.
\<close>

definition setup_py :: "env \<Rightarrow> call list \<times> (pyerror + setup_kwargs)" where
  "setup_py e =
     (let readme = readme_path e
      in case codecs_open e readme of
           Inl err \<Rightarrow> ([CodecsOpen readme], Inl err)
         | Inr f \<Rightarrow>
            (case file_read f of
               Inl err \<Rightarrow> ([CodecsOpen readme, FileRead readme, FileClose readme], Inl err)
             | Inr text_read \<Rightarrow>
                (let found = find_packages e ''.'' (Str ''tests'');
                     kwargs = setup_call text_read found
                 in ([CodecsOpen readme, FileRead readme, FileClose readme,
                      FindPackages ''.'' (Str ''tests''), Setup kwargs],
                     Inr kwargs))))"

subsection \<open>Example runs\<close>

text \<open>
  A project directory \<^verbatim>\<open>/proj\<close> with the script, a README, the package and a tests
  package, each with a subpackage; the script is started as \<^verbatim>\<open>python setup.py\<close> inside it.
\<close>

definition package_dir :: "(string \<times> node) list \<Rightarrow> node" where
  "package_dir es = Dir ((''__init__.py'', File Readable []) # es)"

definition project_tree :: "node \<Rightarrow> node" where
  "project_tree readme =
     Dir [(''proj'',
           Dir [(''setup.py'', File Readable []),
                (''README.md'', readme),
                (''pycroscopy'', package_dir [(''io'', package_dir [])]),
                (''tests'', package_dir [(''unit'', package_dir [])])]),
          (''home'', Dir [])]"

definition example_env :: env where
  "example_env =
     \<lparr> fs = project_tree (File Readable ''pyCroscopy''), cwd = ''/proj'', script_file = ''setup.py'' \<rparr>"

text \<open>The same project, the script started from \<^verbatim>\<open>/home\<close> as \<^verbatim>\<open>python ../proj/setup.py\<close>.\<close>

definition elsewhere_env :: env where
  "elsewhere_env =
     \<lparr> fs = project_tree (File Readable ''pyCroscopy''), cwd = ''/home'',
       script_file = ''../proj/setup.py'' \<rparr>"

text \<open>The project without its README, and with a README that cannot be read.\<close>

definition no_readme_env :: env where
  "no_readme_env =
     \<lparr> fs = Dir [(''proj'', Dir [(''setup.py'', File Readable [])])], cwd = ''/proj'',
       script_file = ''setup.py'' \<rparr>"

definition faulty_readme_env :: env where
  "faulty_readme_env =
     \<lparr> fs = project_tree (File Faulty ''pyCroscopy''), cwd = ''/proj'', script_file = ''setup.py'' \<rparr>"

text \<open>
  The example project with another text in its README, and the project before it has
  any package.
\<close>

definition other_readme_env :: env where
  "other_readme_env =
     \<lparr> fs = project_tree (File Readable ''Another text''), cwd = ''/proj'',
       script_file = ''setup.py'' \<rparr>"

definition bare_env :: env where
  "bare_env =
     \<lparr> fs = Dir [(''proj'', Dir [(''setup.py'', File Readable []),
                               (''README.md'', File Readable ''pyCroscopy'')])],
       cwd = ''/proj'', script_file = ''setup.py'' \<rparr>"

text \<open>
  The example project with a README of two lines that end in carriage return and line
  feed (14 bytes), and with a README that is the one byte \<^verbatim>\<open>0xE9\<close>, an e acute in
  Latin-1 and not valid UTF-8.
\<close>

definition crlf_env :: env where
  "crlf_env =
     \<lparr> fs = project_tree
              (File Readable (''line1'' @ [CHR 0x0D, CHR 0x0A] @ ''line2'' @ [CHR 0x0D, CHR 0x0A])),
       cwd = ''/proj'', script_file = ''setup.py'' \<rparr>"

definition latin1_env :: env where
  "latin1_env =
     \<lparr> fs = project_tree (File Readable [CHR 0xE9]), cwd = ''/proj'',
       script_file = ''setup.py'' \<rparr>"

definition example_kwargs :: setup_kwargs where
  "example_kwargs =
     setup_call (byte_values ''pyCroscopy'')
       [''pycroscopy'', ''tests'', ''pycroscopy.io'', ''tests.unit'']"

subsection \<open>Properties read off the manifest\<close>

text \<open>
  Where the script is, as an absolute path, and the README in the directory of a file
  at an absolute path.
\<close>

definition script_location :: "env \<Rightarrow> string" where
  "script_location e = abspath (cwd e) (script_file e)"

definition readme_beside :: "string \<Rightarrow> string" where
  "readme_beside p = join (dirname p) ''README.md''"

text \<open>
  What stands at the README beside the script, found from the script's location alone
  and not through the path the script computes.
\<close>

definition readme_node :: "env \<Rightarrow> errno + node" where
  "readme_node e = file_at (fs e) (readme_beside (script_location e))"

text \<open>
  The bytes that README gives a reader, when it is a regular file that opens and reads;
  and whether it is text: it gives its bytes and they are valid UTF-8.
\<close>

definition readme_bytes :: "env \<Rightarrow> string option" where
  "readme_bytes e =
     (case readme_node e of
        Inr (File Readable bytes) \<Rightarrow> Some bytes
      | _ \<Rightarrow> None)"

definition readme_is_text :: "env \<Rightarrow> bool" where
  "readme_is_text e =
     (case readme_bytes e of
        None \<Rightarrow> False
      | Some bytes \<Rightarrow> utf8_decode (byte_values bytes) \<noteq> None)"

text \<open>
  The part of a version string after its release number (digits and dots), where a
  pre-release marker such as \<^verbatim>\<open>a1\<close> stands.
\<close>

definition pre_release_segment :: "string \<Rightarrow> string" where
  "pre_release_segment v = dropWhile (\<lambda>c. c \<in> set ''0123456789.'') v"

section \<open>The path functions\<close>

subsection \<open>Splitting, joining and the loop of normpath\<close>

lemma str_split_not_Nil: "str_split c s \<noteq> []"
  by (induction s) (auto split: list.splits)

lemma str_split_append_sep: "str_split c (xs @ c # ys) = str_split c xs @ str_split c ys"
proof (induction xs)
  case Nil
  show ?case by simp
next
  case (Cons x xs)
  then show ?case
    using str_split_not_Nil [of c xs]
    by (cases "str_split c xs") auto
qed

lemma str_split_no_sep: "c \<notin> set s \<Longrightarrow> str_split c s = [s]"
  by (induction s) auto

lemma str_split_parts_no_sep: "w \<in> set (str_split c s) \<Longrightarrow> c \<notin> set w"
proof (induction s arbitrary: w)
  case Nil
  then show ?case by simp
next
  case (Cons x xs)
  then show ?case
    using str_split_not_Nil [of c xs]
    by (cases "str_split c xs") (auto split: if_splits)
qed

lemma str_split_replicate_sep: "str_split c (replicate n c) = replicate (Suc n) []"
  by (induction n) auto

lemma str_split_trailing_seps:
  "str_split c (ys @ replicate n c) = str_split c ys @ replicate n []"
proof (cases n)
  case 0
  then show ?thesis by simp
next
  case (Suc m)
  have "str_split c (ys @ c # replicate m c) = str_split c ys @ str_split c (replicate m c)"
    by (rule str_split_append_sep)
  with Suc show ?thesis by (simp add: str_split_replicate_sep)
qed

lemma normpath_loop_append:
  "normpath_loop k acc (xs @ ys) = normpath_loop k (normpath_loop k acc xs) ys"
  by (induction xs arbitrary: acc) auto

lemma normpath_loop_empties: "normpath_loop k acc (replicate n []) = acc"
  by (induction n) auto

lemma normpath_loop_snoc_name:
  assumes "b \<noteq> []" "b \<noteq> ''.''" "b \<noteq> ''..''"
  shows "normpath_loop k acc (xs @ [b]) = normpath_loop k acc xs @ [b]"
  using assms by (simp add: normpath_loop_append)

lemma plain_names_butlast: "plain_names ws \<Longrightarrow> plain_names (butlast ws)"
  unfolding plain_names_def list_all_iff by (auto dest: in_set_butlastD)

lemma normpath_loop_plain:
  assumes "plain_names acc" and "list_all (\<lambda>w. CHR ''/'' \<notin> set w) xs"
  shows "plain_names (normpath_loop k acc xs)"
  using assms
proof (induction xs arbitrary: acc)
  case Nil
  then show ?case by simp
next
  case (Cons x xs)
  have snoc: "plain_names (acc @ [x])" if "x \<noteq> []"
    using Cons.prems that by (simp add: plain_names_def)
  from Cons show ?case
    by (auto simp: snoc plain_names_butlast)
qed

lemma normpath_loop_split_plain: "plain_names (normpath_loop k [] (str_split CHR ''/'' p))"
  by (rule normpath_loop_plain)
     (auto simp: plain_names_def list_all_iff dest: str_split_parts_no_sep)

lemma str_join_snoc: "ws \<noteq> [] \<Longrightarrow> str_join sep (ws @ [b]) = str_join sep ws @ sep @ b"
  by (induction sep ws rule: str_join.induct) auto

lemma str_join_ends_with_last: "ws \<noteq> [] \<Longrightarrow> \<exists>pre. str_join sep ws = pre @ last ws"
  by (induction sep ws rule: str_join.induct) auto

lemma count_initial_slashes_leading:
  "count_initial_slashes p =
     (let n = length (takeWhile (\<lambda>x. x = CHR ''/'') p)
      in if n = 0 then 0 else if n = 2 then 2 else 1)"
proof (cases p)
  case Nil
  then show ?thesis by (simp add: count_initial_slashes_def startswith_def)
next
  case p1: (Cons a q)
  show ?thesis
  proof (cases q)
    case Nil
    with p1 show ?thesis by (simp add: count_initial_slashes_def startswith_def)
  next
    case p2: (Cons b r)
    show ?thesis
    proof (cases r)
      case Nil
      with p1 p2 show ?thesis by (simp add: count_initial_slashes_def startswith_def)
    next
      case (Cons c t)
      with p1 p2 show ?thesis by (simp add: count_initial_slashes_def startswith_def)
    qed
  qed
qed

lemma leading_slashes_append_name:
  assumes "b \<noteq> []" "CHR ''/'' \<notin> set b"
  shows "takeWhile (\<lambda>x. x = CHR ''/'') (y @ b) = takeWhile (\<lambda>x. x = CHR ''/'') y"
proof (cases "\<forall>x\<in>set y. x = CHR ''/''")
  case True
  from assms have "takeWhile (\<lambda>x. x = CHR ''/'') b = []"
    by (cases b) auto
  with True show ?thesis by (simp add: takeWhile_append2 takeWhile_eq_all_conv [THEN iffD2])
next
  case False
  then obtain x where "x \<in> set y" "x \<noteq> CHR ''/''" by blast
  then show ?thesis by (simp add: takeWhile_append1)
qed

lemma leading_slashes_trailing:
  assumes "y \<noteq> slashes (length y)"
  shows "takeWhile (\<lambda>x. x = CHR ''/'') (y @ z) = takeWhile (\<lambda>x. x = CHR ''/'') y"
proof -
  from assms have "\<not> (\<forall>x\<in>set y. x = CHR ''/'')"
    unfolding slashes_def by (metis replicate_eqI)
  then obtain x where "x \<in> set y" "x \<noteq> CHR ''/''" by blast
  then show ?thesis by (simp add: takeWhile_append1)
qed

lemma normpath_absolute:
  assumes "isabs p"
  shows "normpath p =
           slashes (count_initial_slashes p)
           @ str_join ''/'' (normpath_loop (count_initial_slashes p) [] (str_split CHR ''/'' p))"
    and "0 < count_initial_slashes p"
proof -
  from assms show pos: "0 < count_initial_slashes p"
    by (simp add: isabs_def count_initial_slashes_def)
  from assms have "p \<noteq> []"
    by (auto simp: isabs_def startswith_def)
  with pos show "normpath p =
           slashes (count_initial_slashes p)
           @ str_join ''/'' (normpath_loop (count_initial_slashes p) [] (str_split CHR ''/'' p))"
    by (simp add: normpath_def Let_def slashes_def)
qed

lemma dropWhile_upto_sep: "c \<notin> set xs \<Longrightarrow> dropWhile (\<lambda>x. x \<noteq> c) (xs @ c # ys) = c # ys"
  by (induction xs) auto

lemma dirname_of_normal:
  assumes "0 < k" and "plain_names ws" and "b \<noteq> []" and "CHR ''/'' \<notin> set b"
  shows "dirname (slashes k @ str_join ''/'' (ws @ [b])) = slashes k @ str_join ''/'' ws"
proof (cases "ws = []")
  case True
  from assms(1) have "rev (slashes k) = CHR ''/'' # slashes (k - 1)"
    by (cases k) (simp_all add: slashes_def replicate_append_same)
  with assms(4) have "dropWhile (\<lambda>x. x \<noteq> CHR ''/'') (rev b @ rev (slashes k)) = rev (slashes k)"
    by (simp add: dropWhile_upto_sep)
  then have "upto_last_slash (slashes k @ b) = slashes k"
    by (simp add: upto_last_slash_def)
  with True show ?thesis
    by (simp add: dirname_def Let_def slashes_def)
next
  case False
  then obtain pre where pre: "str_join ''/'' ws = pre @ last ws"
    using str_join_ends_with_last by blast
  from False assms(2) have lastw: "last ws \<noteq> []" "CHR ''/'' \<notin> set (last ws)"
    by (auto simp: plain_names_def list_all_iff)
  define z where "z = last (last ws)"
  from lastw have z: "last ws = butlast (last ws) @ [z]" "z \<noteq> CHR ''/''"
    unfolding z_def by (auto dest: last_in_set)
  let ?j = "str_join ''/'' ws"
  from pre z(1) have j: "?j = (pre @ butlast (last ws)) @ [z]"
    by (metis append_assoc)
  have whole: "slashes k @ str_join ''/'' (ws @ [b]) = (slashes k @ ?j @ ''/'') @ b"
    using False by (simp add: str_join_snoc)
  have head: "upto_last_slash ((slashes k @ ?j @ ''/'') @ b) = slashes k @ ?j @ ''/''"
    using assms(4) by (simp add: upto_last_slash_def dropWhile_upto_sep)
  have notall: "slashes k @ ?j @ ''/'' \<noteq> replicate (length (slashes k @ ?j @ ''/'')) CHR ''/''"
  proof
    assume "slashes k @ ?j @ ''/'' = replicate (length (slashes k @ ?j @ ''/'')) CHR ''/''"
    then have "set (slashes k @ ?j @ ''/'') \<subseteq> {CHR ''/''}"
      by (metis set_replicate_conv_if empty_subsetI subset_refl)
    moreover have "z \<in> set (slashes k @ ?j @ ''/'')"
      by (subst j) simp
    ultimately show False using z(2) by auto
  qed
  have strip: "rstrip CHR ''/'' (slashes k @ ?j @ ''/'') = slashes k @ ?j"
    by (subst (1 2) j) (simp add: rstrip_def z(2))
  show ?thesis
    unfolding whole dirname_def Let_def head
    using notall strip by simp
qed

lemma dirname_normpath_core:
  assumes "isabs y"
    and "n = 0 \<or> y \<noteq> slashes (length y)"
    and "y @ slashes n = x0 @ ''/''"
    and "b \<noteq> []" "b \<noteq> ''.''" "b \<noteq> ''..''" "CHR ''/'' \<notin> set b"
  shows "dirname (normpath (x0 @ ''/'' @ b)) = normpath y"
proof -
  let ?k = "count_initial_slashes y"
  let ?ws = "normpath_loop ?k [] (str_split CHR ''/'' y)"
  have lead: "takeWhile (\<lambda>c. c = CHR ''/'') (x0 @ ''/'' @ b) = takeWhile (\<lambda>c. c = CHR ''/'') y"
  proof (cases "n = 0")
    case True
    with assms(3) have "x0 @ ''/'' @ b = y @ b" by (simp add: slashes_def)
    then show ?thesis
      using leading_slashes_append_name [OF assms(4,7), of y] by (simp only:)
  next
    case False
    with assms(2) have notall: "y \<noteq> slashes (length y)" by simp
    from assms(3) have "x0 @ ''/'' @ b = y @ (slashes n @ b)" by simp
    then show ?thesis
      using leading_slashes_trailing [OF notall, of "slashes n @ b"] by (simp only:)
  qed
  then have k: "count_initial_slashes (x0 @ ''/'' @ b) = ?k"
    by (simp only: count_initial_slashes_leading)
  from assms(1) have "y \<noteq> []"
    by (auto simp: isabs_def startswith_def)
  with assms(1,3) have abs: "isabs (x0 @ ''/'' @ b)"
    by (cases y; cases x0) (auto simp: isabs_def startswith_def)
  have "str_split CHR ''/'' (x0 @ ''/'') = str_split CHR ''/'' y @ replicate n []"
    using str_split_trailing_seps [of "CHR ''/''" y n] assms(3) by (simp add: slashes_def)
  moreover have "str_split CHR ''/'' (x0 @ ''/'') = str_split CHR ''/'' x0 @ [[]]"
    using str_split_append_sep [of "CHR ''/''" x0 "[]"] by simp
  ultimately have "normpath_loop ?k [] (str_split CHR ''/'' x0 @ [[]])
      = normpath_loop ?k [] (str_split CHR ''/'' y @ replicate n [])"
    by simp
  then have same: "normpath_loop ?k [] (str_split CHR ''/'' x0) = ?ws"
    by (simp add: normpath_loop_append normpath_loop_empties)
  have "str_split CHR ''/'' (x0 @ ''/'' @ b) = str_split CHR ''/'' x0 @ [b]"
    using str_split_append_sep [of "CHR ''/''" x0 b] assms(7) by (simp add: str_split_no_sep)
  then have comps: "normpath_loop ?k [] (str_split CHR ''/'' (x0 @ ''/'' @ b)) = ?ws @ [b]"
    using normpath_loop_snoc_name [OF assms(4,5,6), of ?k "[]" "str_split CHR ''/'' x0"] same
    by (simp only:)
  have "normpath (x0 @ ''/'' @ b) = slashes ?k @ str_join ''/'' (?ws @ [b])"
    using normpath_absolute(1) [OF abs] by (simp only: k comps)
  moreover have "dirname (slashes ?k @ str_join ''/'' (?ws @ [b])) = slashes ?k @ str_join ''/'' ?ws"
    using normpath_absolute(2) [OF assms(1)] normpath_loop_split_plain assms(4,7)
    by (rule dirname_of_normal)
  ultimately show ?thesis
    using normpath_absolute(1) [OF assms(1)] by simp
qed

lemma head_and_basename: "upto_last_slash p @ basename p = p"
proof -
  have "rev (takeWhile (\<lambda>x. x \<noteq> CHR ''/'') (rev p) @ dropWhile (\<lambda>x. x \<noteq> CHR ''/'') (rev p)) = p"
    by (simp only: takeWhile_dropWhile_id rev_rev_ident)
  then show ?thesis
    by (simp only: upto_last_slash_def basename_def rev_append)
qed

lemma basename_no_slash: "CHR ''/'' \<notin> set (basename p)"
proof
  assume "CHR ''/'' \<in> set (basename p)"
  then have "CHR ''/'' \<in> set (takeWhile (\<lambda>x. x \<noteq> CHR ''/'') (rev p))"
    by (simp add: basename_def)
  then show False
    by (auto dest: set_takeWhileD)
qed

lemma upto_last_slash_ends:
  assumes "upto_last_slash p \<noteq> []"
  shows "\<exists>h. upto_last_slash p = h @ ''/''"
proof -
  let ?r = "dropWhile (\<lambda>x. x \<noteq> CHR ''/'') (rev p)"
  from assms have "?r \<noteq> []"
    by (simp add: upto_last_slash_def)
  then have "hd ?r = CHR ''/''"
    using hd_dropWhile [of "\<lambda>x. x \<noteq> CHR ''/''" "rev p"] by simp
  with \<open>?r \<noteq> []\<close> have "?r = CHR ''/'' # tl ?r"
    by (metis list.collapse)
  then have "rev ?r = rev (tl ?r) @ ''/''"
    by (metis rev.simps(2))
  then show ?thesis
    unfolding upto_last_slash_def by blast
qed

lemma rstrip_decomp: "\<exists>n. s = rstrip c s @ replicate n c"
proof -
  let ?t = "takeWhile (\<lambda>x. x = c) (rev s)"
  have "?t = replicate (length ?t) c"
    by (rule replicate_eqI) (auto dest: set_takeWhileD)
  moreover have "s = rev (dropWhile (\<lambda>x. x = c) (rev s)) @ rev ?t"
    by (metis rev_append rev_rev_ident takeWhile_dropWhile_id)
  ultimately have "s = rstrip c s @ replicate (length ?t) c"
    unfolding rstrip_def by (metis rev_replicate)
  then show ?thesis ..
qed

lemma join_absolute_cwd:
  assumes "isabs c" and "\<not> isabs r"
  shows "join c r = (if endswith c ''/'' then c else c @ ''/'') @ r"
  using assms by (auto simp: join_def isabs_def startswith_def)

lemma not_all_slashes_witness:
  assumes "x \<in> set s" "x \<noteq> CHR ''/''"
  shows "s \<noteq> slashes (length s)"
  using assms unfolding slashes_def by (metis in_set_replicate)

lemma not_all_slashes_obtain:
  assumes "s \<noteq> slashes (length s)"
  obtains x where "x \<in> set s" "x \<noteq> CHR ''/''"
  using assms unfolding slashes_def by (metis replicate_eqI)

lemma isabs_iff_hd: "isabs p \<longleftrightarrow> p \<noteq> [] \<and> hd p = CHR ''/''"
  by (cases p) (auto simp: isabs_def startswith_def)

lemma endswith_slash_ends: "endswith c ''/'' \<Longrightarrow> \<exists>c0. c = c0 @ ''/''"
  unfolding endswith_def by (metis append_take_drop_id)

lemma dirname_abspath:
  assumes c: "isabs c" and f: "names_a_file f"
  shows "dirname (abspath c f) = abspath c (dirname f)"
proof -
  define d where "d = upto_last_slash f"
  define b where "b = basename f"
  have fdb: "f = d @ b"
    by (simp add: d_def b_def head_and_basename)
  have b: "b \<noteq> []" "b \<noteq> ''.''" "b \<noteq> ''..''" "CHR ''/'' \<notin> set b"
    using f by (simp_all add: names_a_file_def b_def basename_no_slash)
  from b(1,4) have hdb: "hd b \<noteq> CHR ''/''"
    by (cases b) auto
  have dn: "dirname f = (if d \<noteq> [] \<and> d \<noteq> slashes (length d) then rstrip CHR ''/'' d else d)"
    by (simp add: dirname_def d_def Let_def slashes_def)
  define c' where "c' = (if endswith c ''/'' then c else c @ ''/'')"
  have c'abs: "isabs c'"
    using c by (auto simp: c'_def isabs_iff_hd)
  obtain c0 where c0: "c' = c0 @ ''/''"
    unfolding c'_def using endswith_slash_ends [of c] by (cases "endswith c ''/''") auto
  have joinc: "join c r = c' @ r" if "\<not> isabs r" for r
    unfolding c'_def using c that by (rule join_absolute_cwd)
  have "\<exists>y n x0. isabs y \<and> (n = 0 \<or> y \<noteq> slashes (length y)) \<and> y @ slashes n = x0 @ ''/''
          \<and> abspath c (dirname f) = normpath y \<and> abspath c f = normpath (x0 @ ''/'' @ b)"
  proof (cases "d = []")
    case True
    with fdb hdb b(1) have rel: "\<not> isabs f"
      by (simp add: isabs_iff_hd)
    from True dn have "dirname f = []" by simp
    then have 1: "abspath c (dirname f) = normpath c'"
      using joinc [of "[]"] by (simp add: abspath_def isabs_iff_hd)
    from True fdb have 2: "abspath c f = normpath (c0 @ ''/'' @ b)"
      using joinc [OF rel] rel c0 by (simp add: abspath_def)
    have "isabs c' \<and> (0 = (0::nat) \<or> c' \<noteq> slashes (length c')) \<and> c' @ slashes 0 = c0 @ ''/''"
      using c'abs c0 by (simp add: slashes_def)
    with 1 2 show ?thesis by blast
  next
    case dne: False
    then obtain h where h: "d = h @ ''/''"
      using upto_last_slash_ends [of f] unfolding d_def by blast
    from dne fdb have hdf: "hd f = hd d"
      by (cases d) auto
    show ?thesis
    proof (cases "d = slashes (length d)")
      case True
      with dne have "hd d = CHR ''/''"
        by (cases "length d") (auto simp: slashes_def dest: arg_cong [where f = hd])
      with dne hdf fdb have absd: "isabs d" and absf: "isabs f"
        by (auto simp: isabs_iff_hd)
      from True dn have "dirname f = d" by simp
      with absd have 1: "abspath c (dirname f) = normpath d"
        by (simp add: abspath_def)
      from absf fdb h have 2: "abspath c f = normpath (h @ ''/'' @ b)"
        by (simp add: abspath_def)
      have "isabs d \<and> (0 = (0::nat) \<or> d \<noteq> slashes (length d)) \<and> d @ slashes 0 = h @ ''/''"
        using absd h by (simp add: slashes_def)
      with 1 2 show ?thesis by blast
    next
      case notall: False
      define d' where "d' = rstrip CHR ''/'' d"
      obtain n where n: "d = d' @ slashes n"
        unfolding d'_def slashes_def using rstrip_decomp by blast
      from notall dne dn have dnf: "dirname f = d'"
        by (simp add: d'_def)
      from notall obtain x where x: "x \<in> set d" "x \<noteq> CHR ''/''"
        by (rule not_all_slashes_obtain)
      with n have xd': "x \<in> set d'"
        by (auto simp: slashes_def)
      then have d'ne: "d' \<noteq> []" by auto
      with n have hdd': "hd d' = hd d" by simp
      show ?thesis
      proof (cases "isabs f")
        case True
        with hdf hdd' d'ne have absd': "isabs d'"
          by (simp add: isabs_iff_hd)
        with dnf have 1: "abspath c (dirname f) = normpath d'"
          by (simp add: abspath_def)
        from True fdb h have 2: "abspath c f = normpath (h @ ''/'' @ b)"
          by (simp add: abspath_def)
        have "d' \<noteq> slashes (length d')"
          using xd' x(2) by (rule not_all_slashes_witness)
        with absd' n h
        have "isabs d' \<and> (n = 0 \<or> d' \<noteq> slashes (length d')) \<and> d' @ slashes n = h @ ''/''"
          by simp
        with 1 2 show ?thesis by blast
      next
        case False
        with hdf hdd' dne fdb have reld': "\<not> isabs d'"
          by (auto simp: isabs_iff_hd)
        with dnf have 1: "abspath c (dirname f) = normpath (c' @ d')"
          using joinc [OF reld'] by (simp add: abspath_def)
        from False fdb h have 2: "abspath c f = normpath ((c' @ h) @ ''/'' @ b)"
          using joinc [OF False] by (simp add: abspath_def)
        have "x \<in> set (c' @ d')" using xd' by simp
        then have "c' @ d' \<noteq> slashes (length (c' @ d'))"
          using x(2) by (rule not_all_slashes_witness)
        moreover have "isabs (c' @ d')"
          using c'abs by (auto simp: isabs_iff_hd)
        moreover have "(c' @ d') @ slashes n = (c' @ h) @ ''/''"
          using n h by simp
        ultimately
        have "isabs (c' @ d') \<and> (n = 0 \<or> c' @ d' \<noteq> slashes (length (c' @ d')))
              \<and> (c' @ d') @ slashes n = (c' @ h) @ ''/''"
          by blast
        with 1 2 show ?thesis by blast
      qed
    qed
  qed
  then obtain y n x0
    where "isabs y" "n = 0 \<or> y \<noteq> slashes (length y)" "y @ slashes n = x0 @ ''/''"
      and eqs: "abspath c (dirname f) = normpath y" "abspath c f = normpath (x0 @ ''/'' @ b)"
    by blast
  then have "dirname (normpath (x0 @ ''/'' @ b)) = normpath y"
    using b by (intro dirname_normpath_core)
  with eqs show ?thesis by simp
qed

subsection \<open>Absolute paths and the directory of the script\<close>

lemma isabs_normpath: "isabs p \<Longrightarrow> isabs (normpath p)"
  using normpath_absolute [of p]
  by (cases "count_initial_slashes p") (auto simp: isabs_iff_hd slashes_def)

lemma isabs_join_left: "isabs a \<Longrightarrow> isabs (join a b)"
  by (cases a; cases b) (auto simp: join_def isabs_def startswith_def)

lemma join_absolute_right: "isabs p \<Longrightarrow> join c p = p"
  by (simp add: join_def isabs_def)

lemma isabs_abspath: "isabs c \<Longrightarrow> isabs (abspath c p)"
  by (auto simp: abspath_def intro: isabs_normpath isabs_join_left)

section \<open>The runs of the script\<close>

lemma utf8_decode_ascii: "list_all (\<lambda>b. b < 128) bs \<Longrightarrow> utf8_decode bs = Some bs"
  by (induction bs) simp_all

lemma universal_newlines_no_cr: "13 \<notin> set t \<Longrightarrow> universal_newlines t = t"
  by (induction t rule: universal_newlines.induct) simp_all

text \<open>What a run ends with, by what stands at the path the script opens.\<close>

lemma setup_py_outcome:
  "snd (setup_py e) =
     (case os_stat e (readme_path e) of
        Inl en \<Rightarrow> Inl (OSError en (Some (readme_path e)))
      | Inr (Dir es) \<Rightarrow> Inl (OSError EISDIR (Some (readme_path e)))
      | Inr (File Denied bytes) \<Rightarrow> Inl (OSError EACCES (Some (readme_path e)))
      | Inr (File Faulty bytes) \<Rightarrow> Inl (OSError EIO None)
      | Inr (File Readable bytes) \<Rightarrow>
          (case utf8_decode (byte_values bytes) of
             None \<Rightarrow> Inl (UnicodeDecodeError ''utf-8'')
           | Some decoded \<Rightarrow>
               Inr (setup_call (universal_newlines decoded)
                      (find_packages e ''.'' (Str ''tests'')))))"
  by (simp add: setup_py_def codecs_open_def file_read_def Let_def
           split: sum.splits node.splits access.splits option.splits)

lemma setup_py_readable:
  assumes "os_stat e (readme_path e) = Inr (File Readable bytes)"
    and "utf8_decode (byte_values bytes) = Some decoded"
  shows "setup_py e =
    ([CodecsOpen (readme_path e), FileRead (readme_path e), FileClose (readme_path e),
      FindPackages ''.'' (Str ''tests''),
      Setup (setup_call (universal_newlines decoded) (find_packages e ''.'' (Str ''tests'')))],
     Inr (setup_call (universal_newlines decoded) (find_packages e ''.'' (Str ''tests''))))"
  using assms by (simp add: setup_py_def codecs_open_def file_read_def Let_def)

lemma setup_py_Inr:
  assumes "snd (setup_py e) = Inr kw"
  shows "\<exists>bytes decoded. os_stat e (readme_path e) = Inr (File Readable bytes)
           \<and> utf8_decode (byte_values bytes) = Some decoded
           \<and> kw = setup_call (universal_newlines decoded) (find_packages e ''.'' (Str ''tests''))"
  using assms unfolding setup_py_outcome
  by (auto split: sum.splits node.splits access.splits option.splits)

lemma setup_py_Inl:
  assumes "snd (setup_py e) = Inl err"
  shows "fst (setup_py e) = [CodecsOpen (readme_path e)]
         \<or> fst (setup_py e)
             = [CodecsOpen (readme_path e), FileRead (readme_path e), FileClose (readme_path e)]"
  using assms
  by (auto simp: setup_py_def codecs_open_def file_read_def Let_def
           split: sum.splits node.splits access.splits option.splits)

lemma here_is_script_directory:
  assumes "isabs (cwd e)" and "names_a_file (script_file e)"
  shows "here e = dirname (script_location e)"
  using dirname_abspath [OF assms] by (simp add: here_def script_location_def)

lemma isabs_readme_path: "isabs (cwd e) \<Longrightarrow> isabs (readme_path e)"
  by (simp add: readme_path_def here_def isabs_join_left isabs_abspath)

lemma os_stat_absolute: "isabs p \<Longrightarrow> os_stat e p = file_at (fs e) p"
  by (simp add: os_stat_def join_absolute_right)

text \<open>
  The path the script computes is the README beside the script, and what the process
  finds there is what stands there in the tree.
\<close>

lemma readme_path_beside_script:
  assumes "isabs (cwd e)" and "names_a_file (script_file e)"
  shows "readme_path e = readme_beside (script_location e)"
    and "os_stat e (readme_path e) = readme_node e"
proof -
  show path: "readme_path e = readme_beside (script_location e)"
    using here_is_script_directory [OF assms] by (simp add: readme_path_def readme_beside_def)
  have "os_stat e (readme_path e) = file_at (fs e) (readme_path e)"
    using assms(1) by (simp add: os_stat_absolute isabs_readme_path)
  then show "os_stat e (readme_path e) = readme_node e"
    by (simp add: path readme_node_def)
qed



text \<open>The example runs, evaluated.\<close>

lemma example_readme:
  "os_stat example_env (readme_path example_env) = Inr (File Readable ''pyCroscopy'')"
  by code_simp

lemma example_decoded: "utf8_decode (byte_values ''pyCroscopy'') = Some (byte_values ''pyCroscopy'')"
  by code_simp

lemma example_packages:
  "find_packages example_env ''.'' (Str ''tests'')
     = [''pycroscopy'', ''tests'', ''pycroscopy.io'', ''tests.unit'']"
  by code_simp

lemma example_run: "snd (setup_py example_env) = Inr example_kwargs"
  by code_simp

lemma elsewhere_readme:
  "os_stat elsewhere_env (readme_path elsewhere_env) = Inr (File Readable ''pyCroscopy'')"
  by code_simp

lemma elsewhere_packages: "find_packages elsewhere_env ''.'' (Str ''tests'') = []"
  by code_simp

lemma elsewhere_run:
  "snd (setup_py elsewhere_env) = Inr (setup_call (byte_values ''pyCroscopy'') [])"
  by code_simp

lemma no_readme_run:
  "setup_py no_readme_env
     = ([CodecsOpen ''/proj/README.md''], Inl (OSError ENOENT (Some ''/proj/README.md'')))"
  by code_simp

lemma faulty_readme_run:
  "setup_py faulty_readme_env
     = ([CodecsOpen ''/proj/README.md'', FileRead ''/proj/README.md'',
         FileClose ''/proj/README.md''],
        Inl (OSError EIO None))"
  by code_simp

lemma latin1_run:
  "setup_py latin1_env
     = ([CodecsOpen ''/proj/README.md'', FileRead ''/proj/README.md'',
         FileClose ''/proj/README.md''],
        Inl (UnicodeDecodeError ''utf-8''))"
  by code_simp

lemma crlf_run:
  "map_sum id long_description (snd (setup_py crlf_env))
     = Inr (byte_values (''line1'' @ [CHR 0x0A] @ ''line2'' @ [CHR 0x0A]))"
  by code_simp



subsection \<open>Package discovery looks at the shape of the tree only\<close>

lemma is_dir_shape: "is_dir (shape n) = is_dir n"
  by (cases n) (simp_all add: is_dir_def)

lemma map_of_shape: "map_of (map (map_prod id shape) es) c = map_option shape (map_of es c)"
  by (induction es) auto

lemma looks_like_package_shape: "looks_like_package (shape n) = looks_like_package n"
proof (cases n)
  case (File a s)
  then show ?thesis by (simp add: looks_like_package_def)
next
  case (Dir es)
  show ?thesis
  proof (cases "map_of es ''__init__.py''")
    case None
    with Dir show ?thesis by (simp add: looks_like_package_def map_of_shape)
  next
    case (Some m)
    with Dir show ?thesis
      by (cases m) (simp_all add: looks_like_package_def map_of_shape)
  qed
qed

lemma kept_dirs_shape: "kept_dirs (map (map_prod id shape) es) = map (map_prod id shape) (kept_dirs es)"
  by (induction es) (auto simp: kept_dirs_def is_dir_shape looks_like_package_shape)

lemma find_iter_shape: "find_iter ex inc rel (shape n) = find_iter ex inc rel n"
proof (induction ex inc rel n rule: find_iter.induct)
  case (1 ex inc rel a s)
  show ?case by simp
next
  case (2 ex inc rel es)
  have names: "map (\<lambda>e. package_name rel (fst e)) (map (map_prod id shape) (kept_dirs es))
      = map (\<lambda>e. package_name rel (fst e)) (kept_dirs es)"
    by (simp add: comp_def)
  have below: "map (\<lambda>e.
         if package_name rel (fst e) @ ''*'' \<in> set ex
            \<or> package_name rel (fst e) @ ''.*'' \<in> set ex
         then []
         else find_iter ex inc (package_name rel (fst e)) (snd e))
        (map (map_prod id shape) (kept_dirs es))
     = map (\<lambda>e.
         if package_name rel (fst e) @ ''*'' \<in> set ex
            \<or> package_name rel (fst e) @ ''.*'' \<in> set ex
         then []
         else find_iter ex inc (package_name rel (fst e)) (snd e)) (kept_dirs es)"
    using "2.IH" by (auto simp: comp_def)
  show ?case
    by (simp only: shape.simps find_iter.simps kept_dirs_shape names below)
qed

lemma resolve_shape:
  "resolve (map shape up) (shape n) cs = map_sum id shape (resolve up n cs)"
proof (induction up n cs rule: resolve.induct)
  case (1 up n)
  show ?case by simp
next
  case (2 up a s c cs)
  show ?case by simp
next
  case (3 up es c cs)
  show ?case
  proof (cases "c = ''.''")
    case True
    with 3 show ?thesis by simp
  next
    case notdot: False
    show ?thesis
    proof (cases "c = ''..''")
      case True
      with 3 notdot show ?thesis by (cases up) auto
    next
      case False
      with 3 notdot show ?thesis
        by (cases "map_of es c") (auto simp: map_of_shape)
    qed
  qed
qed

lemma find_packages_shape:
  "find_packages (e\<lparr>fs := shape (fs e)\<rparr>) w x = find_packages e w x"
proof -
  have "resolve [] (shape (fs e)) cs = map_sum id shape (resolve [] (fs e) cs)" for cs
    using resolve_shape [of "[]" "fs e" cs] by simp
  then show ?thesis
    by (cases "resolve [] (fs e) (path_comps (join (cwd e) w))")
       (simp_all add: find_packages_def os_stat_def file_at_def find_iter_shape)
qed

lemma find_packages_same_tree:
  assumes "fs e1 = fs e2" and "cwd e1 = cwd e2"
  shows "find_packages e1 w x = find_packages e2 w x"
  using assms by (simp add: find_packages_def os_stat_def)

lemma find_packages_same_shape:
  assumes "shape (fs e1) = shape (fs e2)" and "cwd e1 = cwd e2"
  shows "find_packages e1 w x = find_packages e2 w x"
proof -
  have "find_packages e1 w x = find_packages (e1\<lparr>fs := shape (fs e1)\<rparr>) w x"
    by (simp add: find_packages_shape)
  also have "\<dots> = find_packages (e2\<lparr>fs := shape (fs e2)\<rparr>) w x"
    using assms by (intro find_packages_same_tree) simp_all
  also have "\<dots> = find_packages e2 w x"
    by (simp add: find_packages_shape)
  finally show ?thesis .
qed

lemma other_readme_readme:
  "os_stat other_readme_env (readme_path other_readme_env) = Inr (File Readable ''Another text'')"
  by code_simp

lemma other_readme_shape: "shape (fs other_readme_env) = shape (fs example_env)"
  by (simp add: other_readme_env_def example_env_def project_tree_def)

lemma other_readme_cwd: "cwd other_readme_env = cwd example_env"
  by (simp add: other_readme_env_def example_env_def)

lemma other_readme_run:
  "snd (setup_py other_readme_env)
     = Inr (setup_call (byte_values ''Another text'') [''pycroscopy'', ''tests'', ''pycroscopy.io'', ''tests.unit''])"
  by code_simp

lemma bare_run: "snd (setup_py bare_env) = Inr (setup_call (byte_values ''pyCroscopy'') [])"
  by code_simp

subsection \<open>What the string \<^verbatim>\<open>'tests'\<close> excludes\<close>

text \<open>
  The patterns the script's call excludes by, that the name \<^verbatim>\<open>tests\<close> passes them, that
  a package \<^verbatim>\<open>tests\<close> at the top of any project is therefore found, and what the call
  finds in the example project when it is given a list of patterns instead.
\<close>

lemma script_exclude_patterns:
  "ALWAYS_EXCLUDE @ unpack (Str ''tests'')
     = [''ez_setup'', ''*__pycache__'', ''t'', ''e'', ''s'', ''t'', ''s'']"
  by (simp add: ALWAYS_EXCLUDE_def)

lemma tests_not_matched: "\<not> filter_matches (ALWAYS_EXCLUDE @ unpack (Str ''tests'')) ''tests''"
  by code_simp

lemma tests_included: "filter_matches [''*''] ''tests''"
  by code_simp

lemma top_level_tests_package_found:
  assumes "os_stat e ''.'' = Inr (Dir es)" and "(''tests'', n) \<in> set (kept_dirs es)"
  shows "''tests'' \<in> set (find_packages e ''.'' (Str ''tests''))"
proof -
  from assms(2) have "package_name [] (fst (''tests'', n)) \<in> (\<lambda>e. package_name [] (fst e)) ` set (kept_dirs es)"
    by (rule imageI)
  then have "''tests'' \<in> set (map (\<lambda>e. package_name [] (fst e)) (kept_dirs es))"
    by (simp add: package_name_def)
  then show ?thesis
    using tests_not_matched tests_included
    by (simp add: find_packages_def assms(1))
qed

lemma example_packages_with_patterns:
  "find_packages example_env ''.'' (StrList [''tests'', ''tests.*''])
     = [''pycroscopy'', ''pycroscopy.io'']"
  by code_simp

section \<open>The claims\<close>

text \<open>
  C4. In every run that reaches the call of \<^verbatim>\<open>setup\<close>, each of the required fields
  \<open>name\<close>, \<open>version\<close>, \<open>license\<close> and \<open>author\<close> is passed a non-empty string.
\<close>

theorem required_fields_nonempty:
  assumes "snd (setup_py e) = Inr kw"
  shows "name kw \<noteq> [] \<and> version kw \<noteq> [] \<and> license kw \<noteq> [] \<and> author kw \<noteq> []"
  using setup_py_Inr [OF assms] by (auto simp: setup_call_def)

theorem required_fields_nonempty_witness:
  "snd (setup_py example_env) = Inr example_kwargs
   \<and> name example_kwargs \<noteq> [] \<and> version example_kwargs \<noteq> []
   \<and> license example_kwargs \<noteq> [] \<and> author example_kwargs \<noteq> []"
  using required_fields_nonempty [OF example_run] example_run by simp

text \<open>
  C2. In every run that reaches the call of \<^verbatim>\<open>setup\<close>, \<open>install_requires\<close> and
  \<open>dependency_links\<close> name no dependency: each is the list \<^verbatim>\<open>['']\<close>, whose one entry is
  the empty string, so neither has an entry that is not empty.
\<close>

theorem dependency_declarations_empty:
  assumes "snd (setup_py e) = Inr kw"
  shows "install_requires kw = [[]] \<and> dependency_links kw = [[]]
         \<and> filter (\<lambda>d. d \<noteq> []) (install_requires kw) = []
         \<and> filter (\<lambda>d. d \<noteq> []) (dependency_links kw) = []"
  using setup_py_Inr [OF assms] by (auto simp: setup_call_def)

theorem dependency_declarations_empty_witness:
  "snd (setup_py example_env) = Inr example_kwargs
   \<and> install_requires example_kwargs = [[]] \<and> dependency_links example_kwargs = [[]]
   \<and> filter (\<lambda>d. d \<noteq> []) (install_requires example_kwargs) = []
   \<and> filter (\<lambda>d. d \<noteq> []) (dependency_links example_kwargs) = []"
  using dependency_declarations_empty [OF example_run] example_run by simp

text \<open>
  C7. In every run that reaches the call of \<^verbatim>\<open>setup\<close>, \<open>license\<close> is the string
  \<^verbatim>\<open>MIT\<close>, and \<open>version\<close> is \<^verbatim>\<open>0.0a1\<close>: the release number \<^verbatim>\<open>0.0\<close> followed by the
  pre-release marker \<^verbatim>\<open>a1\<close>, beside the classifier
  \<^verbatim>\<open>Development Status :: 2 - Pre-Alpha\<close>.
\<close>

theorem license_and_version:
  assumes "snd (setup_py e) = Inr kw"
  shows "license kw = ''MIT'' \<and> version kw = ''0.0a1''
         \<and> pre_release_segment (version kw) = ''a1''
         \<and> ''Development Status :: 2 - Pre-Alpha'' \<in> set (classifiers kw)"
  using setup_py_Inr [OF assms] by (auto simp: setup_call_def pre_release_segment_def)

theorem license_and_version_witness:
  "snd (setup_py example_env) = Inr example_kwargs
   \<and> license example_kwargs = ''MIT'' \<and> version example_kwargs = ''0.0a1''
   \<and> pre_release_segment (version example_kwargs) = ''a1''
   \<and> ''Development Status :: 2 - Pre-Alpha'' \<in> set (classifiers example_kwargs)"
  using license_and_version [OF example_run] example_run by auto

text \<open>
  C6, as the claim states it: \<open>long_description\<close> is not always the README's contents.
  The script reads the file in text mode: a README of 14 bytes whose two lines end in
  carriage return and line feed is passed as 12 code points, each line ending a line
  feed.
\<close>

theorem long_description_not_readme_bytes:
  "readme_node crlf_env
     = Inr (File Readable (''line1'' @ [CHR 0x0D, CHR 0x0A] @ ''line2'' @ [CHR 0x0D, CHR 0x0A]))
   \<and> map_sum id long_description (snd (setup_py crlf_env))
       = Inr (byte_values (''line1'' @ [CHR 0x0A] @ ''line2'' @ [CHR 0x0A]))
   \<and> length (byte_values (''line1'' @ [CHR 0x0D, CHR 0x0A] @ ''line2'' @ [CHR 0x0D, CHR 0x0A])) = 14
   \<and> length (byte_values (''line1'' @ [CHR 0x0A] @ ''line2'' @ [CHR 0x0A])) = 12"
proof -
  have "readme_node crlf_env
     = Inr (File Readable (''line1'' @ [CHR 0x0D, CHR 0x0A] @ ''line2'' @ [CHR 0x0D, CHR 0x0A]))"
    by code_simp
  then show ?thesis
    by (simp add: crlf_run byte_values_def)
qed

text \<open>
  C6, amended. When the README beside the script is a regular file that opens and
  reads and its bytes are valid UTF-8, the script calls \<^verbatim>\<open>setup\<close> with \<open>long_description\<close>
  equal to the decoded text, every carriage return with line feed and every carriage
  return alone replaced by a line feed. When the bytes are ASCII with no carriage
  return, that is the file's contents, byte for byte.
\<close>

theorem long_description_is_decoded_readme:
  assumes "isabs (cwd e)" and "names_a_file (script_file e)"
    and "readme_node e = Inr (File Readable bytes)"
    and "utf8_decode (byte_values bytes) = Some decoded"
  shows "\<exists>kw. snd (setup_py e) = Inr kw
           \<and> long_description kw = universal_newlines decoded
           \<and> (list_all (\<lambda>b. b < 128 \<and> b \<noteq> 13) (byte_values bytes)
                \<longrightarrow> long_description kw = byte_values bytes)"
proof -
  have opened: "os_stat e (readme_path e) = Inr (File Readable bytes)"
    using readme_path_beside_script(2) [OF assms(1,2)] assms(3) by simp
  have run: "snd (setup_py e)
      = Inr (setup_call (universal_newlines decoded) (find_packages e ''.'' (Str ''tests'')))"
    by (simp add: setup_py_readable [OF opened assms(4)])
  have "universal_newlines decoded = byte_values bytes"
    if plain: "list_all (\<lambda>b. b < 128 \<and> b \<noteq> 13) (byte_values bytes)"
  proof -
    from plain have "list_all (\<lambda>b. b < 128) (byte_values bytes)"
      and no_cr: "13 \<notin> set (byte_values bytes)"
      by (auto simp: list_all_iff)
    then have "utf8_decode (byte_values bytes) = Some (byte_values bytes)"
      by (simp add: utf8_decode_ascii)
    with assms(4) have "decoded = byte_values bytes"
      by simp
    with no_cr show ?thesis
      by (simp add: universal_newlines_no_cr)
  qed
  with run show ?thesis
    by (simp add: setup_call_def)
qed

theorem long_description_is_decoded_readme_witness:
  "isabs (cwd example_env) \<and> names_a_file (script_file example_env)
   \<and> readme_node example_env = Inr (File Readable ''pyCroscopy'')
   \<and> utf8_decode (byte_values ''pyCroscopy'') = Some (byte_values ''pyCroscopy'')
   \<and> list_all (\<lambda>b. b < 128 \<and> b \<noteq> 13) (byte_values ''pyCroscopy'')
   \<and> (\<exists>kw. snd (setup_py example_env) = Inr kw
         \<and> long_description kw = universal_newlines (byte_values ''pyCroscopy'')
         \<and> long_description kw = byte_values ''pyCroscopy'')"
proof -
  have a1: "isabs (cwd example_env)" by code_simp
  have a2: "names_a_file (script_file example_env)" by code_simp
  have a3: "readme_node example_env = Inr (File Readable ''pyCroscopy'')" by code_simp
  have a5: "list_all (\<lambda>b. b < 128 \<and> b \<noteq> 13) (byte_values ''pyCroscopy'')" by code_simp
  from long_description_is_decoded_readme [OF a1 a2 a3 example_decoded] a1 a2 a3 a5 example_decoded
  show ?thesis by blast
qed

text \<open>
  C5. Two runs that find the same bytes in their README and both reach the call of
  \<^verbatim>\<open>setup\<close> pass the same \<open>long_description\<close>, whatever else differs between them.
\<close>

theorem long_description_deterministic:
  assumes "os_stat e1 (readme_path e1) = Inr (File a1 s)"
    and "os_stat e2 (readme_path e2) = Inr (File a2 s)"
    and "snd (setup_py e1) = Inr kw1"
    and "snd (setup_py e2) = Inr kw2"
  shows "long_description kw1 = long_description kw2"
  using setup_py_Inr [OF assms(3)] setup_py_Inr [OF assms(4)] assms(1,2)
  by (auto simp: setup_call_def)

theorem long_description_deterministic_witness:
  "os_stat example_env (readme_path example_env) = Inr (File Readable ''pyCroscopy'')
   \<and> os_stat elsewhere_env (readme_path elsewhere_env) = Inr (File Readable ''pyCroscopy'')
   \<and> snd (setup_py example_env) = Inr example_kwargs
   \<and> snd (setup_py elsewhere_env) = Inr (setup_call (byte_values ''pyCroscopy'') [])
   \<and> long_description example_kwargs = long_description (setup_call (byte_values ''pyCroscopy'') [])"
  using long_description_deterministic [OF example_readme elsewhere_readme example_run elsewhere_run]
    example_readme elsewhere_readme example_run elsewhere_run
  by simp

text \<open>
  C3, as the claim states it: there is another failure than a file-access error. With
  a README that is present, opens and reads, but whose one byte \<^verbatim>\<open>0xE9\<close> is not valid
  UTF-8, the script opens, reads and closes the file and ends with a
  \<^verbatim>\<open>UnicodeDecodeError\<close>, which is not an \<^verbatim>\<open>OSError\<close>; \<^verbatim>\<open>setup\<close> is not called.
\<close>

theorem readable_readme_decode_error:
  "readme_node latin1_env = Inr (File Readable [CHR 0xE9])
   \<and> setup_py latin1_env
       = ([CodecsOpen ''/proj/README.md'', FileRead ''/proj/README.md'',
           FileClose ''/proj/README.md''],
          Inl (UnicodeDecodeError ''utf-8''))"
proof -
  have "readme_node latin1_env = Inr (File Readable [CHR 0xE9])"
    by code_simp
  then show ?thesis
    by (simp add: latin1_run)
qed

text \<open>
  C3, amended. With the imports done and up to the call of \<^verbatim>\<open>setup\<close>, the script raises
  exactly when the README beside the script is not text it can read: an \<^verbatim>\<open>OSError\<close>
  exactly when the README is not a regular file that opens and reads (it is missing, a
  directory, below a file, closed to the process, or fails on reading), and a
  \<^verbatim>\<open>UnicodeDecodeError\<close> exactly when it opens and reads and its bytes are not valid
  UTF-8.
\<close>

theorem fails_iff_readme_not_text:
  assumes "isabs (cwd e)" and "names_a_file (script_file e)"
  shows "((\<exists>err. snd (setup_py e) = Inl err) \<longleftrightarrow> \<not> readme_is_text e)
         \<and> ((\<exists>en fn. snd (setup_py e) = Inl (OSError en fn)) \<longleftrightarrow> readme_bytes e = None)
         \<and> ((\<exists>c. snd (setup_py e) = Inl (UnicodeDecodeError c))
              \<longleftrightarrow> readme_bytes e \<noteq> None \<and> \<not> readme_is_text e)"
proof -
  note opened = readme_path_beside_script(2) [OF assms]
  show ?thesis
  proof (cases "readme_node e")
    case (Inl en)
    then show ?thesis
      by (simp add: setup_py_outcome opened readme_bytes_def readme_is_text_def)
  next
    case (Inr n)
    show ?thesis
    proof (cases n)
      case (Dir es)
      with Inr show ?thesis
        by (simp add: setup_py_outcome opened readme_bytes_def readme_is_text_def)
    next
      case (File a bytes)
      show ?thesis
      proof (cases a)
        case Readable
        with Inr File show ?thesis
          by (cases "utf8_decode (byte_values bytes)")
             (simp_all add: setup_py_outcome opened readme_bytes_def readme_is_text_def)
      next
        case Denied
        with Inr File show ?thesis
          by (simp add: setup_py_outcome opened readme_bytes_def readme_is_text_def)
      next
        case Faulty
        with Inr File show ?thesis
          by (simp add: setup_py_outcome opened readme_bytes_def readme_is_text_def)
      qed
    qed
  qed
qed

theorem fails_iff_readme_not_text_witness:
  "isabs (cwd example_env) \<and> names_a_file (script_file example_env)
   \<and> readme_is_text example_env
   \<and> \<not> (\<exists>err. snd (setup_py example_env) = Inl err)
   \<and> isabs (cwd no_readme_env) \<and> names_a_file (script_file no_readme_env)
   \<and> readme_bytes no_readme_env = None
   \<and> (\<exists>en fn. snd (setup_py no_readme_env) = Inl (OSError en fn))
   \<and> isabs (cwd latin1_env) \<and> names_a_file (script_file latin1_env)
   \<and> readme_bytes latin1_env = Some [CHR 0xE9] \<and> \<not> readme_is_text latin1_env
   \<and> (\<exists>c. snd (setup_py latin1_env) = Inl (UnicodeDecodeError c))"
proof -
  have a1: "isabs (cwd example_env)" and a2: "names_a_file (script_file example_env)"
    and a3: "readme_is_text example_env"
    by code_simp+
  have b1: "isabs (cwd no_readme_env)" and b2: "names_a_file (script_file no_readme_env)"
    and b3: "readme_bytes no_readme_env = None"
    by code_simp+
  have c1: "isabs (cwd latin1_env)" and c2: "names_a_file (script_file latin1_env)"
    and c3: "readme_bytes latin1_env = Some [CHR 0xE9]" and c4: "\<not> readme_is_text latin1_env"
    by code_simp+
  from fails_iff_readme_not_text [OF a1 a2] a3
  have a: "\<not> (\<exists>err. snd (setup_py example_env) = Inl err)" by blast
  from fails_iff_readme_not_text [OF b1 b2] b3
  have b: "\<exists>en fn. snd (setup_py no_readme_env) = Inl (OSError en fn)" by blast
  from fails_iff_readme_not_text [OF c1 c2] c3 c4
  have c: "\<exists>c. snd (setup_py latin1_env) = Inl (UnicodeDecodeError c)" by simp
  from a1 a2 a3 a b1 b2 b3 b c1 c2 c3 c4 c show ?thesis
    by blast
qed

text \<open>
  C9. When the script raises, it has called neither \<^verbatim>\<open>find_packages\<close> nor \<^verbatim>\<open>setup\<close>;
  when it reaches \<^verbatim>\<open>setup\<close>, the open, the read and the close of the README came first,
  in that order, then \<^verbatim>\<open>find_packages\<close>, and \<^verbatim>\<open>setup\<close> is the last call and the only one.
\<close>

theorem setup_not_called_on_read_error:
  "(\<forall>err. snd (setup_py e) = Inl err \<longrightarrow>
      (\<forall>kw. Setup kw \<notin> set (fst (setup_py e)))
      \<and> (\<forall>w x. FindPackages w x \<notin> set (fst (setup_py e))))
   \<and> (\<forall>kw. snd (setup_py e) = Inr kw \<longrightarrow>
        fst (setup_py e)
          = [CodecsOpen (readme_path e), FileRead (readme_path e), FileClose (readme_path e),
             FindPackages ''.'' (Str ''tests''), Setup kw])"
proof -
  have "(\<forall>kw. Setup kw \<notin> set (fst (setup_py e)))
        \<and> (\<forall>w x. FindPackages w x \<notin> set (fst (setup_py e)))"
    if "snd (setup_py e) = Inl err" for err
    using setup_py_Inl [OF that] by auto
  moreover have "fst (setup_py e)
      = [CodecsOpen (readme_path e), FileRead (readme_path e), FileClose (readme_path e),
         FindPackages ''.'' (Str ''tests''), Setup kw]"
    if "snd (setup_py e) = Inr kw" for kw
  proof -
    from setup_py_Inr [OF that] obtain bytes decoded
      where opened: "os_stat e (readme_path e) = Inr (File Readable bytes)"
        and decoded: "utf8_decode (byte_values bytes) = Some decoded"
        and kw: "kw = setup_call (universal_newlines decoded) (find_packages e ''.'' (Str ''tests''))"
      by blast
    show ?thesis by (simp add: setup_py_readable [OF opened decoded] kw)
  qed
  ultimately show ?thesis by blast
qed

theorem setup_not_called_on_read_error_witness:
  "snd (setup_py faulty_readme_env) = Inl (OSError EIO None)
   \<and> (\<forall>kw. Setup kw \<notin> set (fst (setup_py faulty_readme_env)))
   \<and> (\<forall>w x. FindPackages w x \<notin> set (fst (setup_py faulty_readme_env)))"
proof -
  have failed: "snd (setup_py faulty_readme_env) = Inl (OSError EIO None)"
    by (simp add: faulty_readme_run)
  with setup_not_called_on_read_error [of faulty_readme_env] show ?thesis
    by blast
qed

text \<open>
  C1. The script passes the string \<^verbatim>\<open>'tests'\<close> as \<open>exclude\<close>; unpacked, it is the patterns
  \<^verbatim>\<open>t\<close>, \<^verbatim>\<open>e\<close>, \<^verbatim>\<open>s\<close>, which the name \<^verbatim>\<open>tests\<close> does not match. In the example project the
  package \<^verbatim>\<open>tests\<close> and its subpackage \<^verbatim>\<open>tests.unit\<close> are in the list passed as
  \<open>packages\<close>.
\<close>

theorem tests_package_not_excluded:
  "map_sum id packages (snd (setup_py example_env))
     = Inr [''pycroscopy'', ''tests'', ''pycroscopy.io'', ''tests.unit'']"
  by (simp add: example_run example_kwargs_def setup_call_def)

text \<open>
  C10, as the claim states it: the field \<open>packages\<close> is not a constant of the script. Two
  runs in \<^verbatim>\<open>/proj\<close> with the same readable README, one with the packages in place and one
  before any package exists, pass different \<open>packages\<close>.
\<close>

theorem packages_not_constant:
  "snd (setup_py example_env) = Inr example_kwargs
   \<and> snd (setup_py bare_env) = Inr (setup_call (byte_values ''pyCroscopy'') [])
   \<and> long_description example_kwargs = long_description (setup_call (byte_values ''pyCroscopy'') [])
   \<and> packages example_kwargs \<noteq> packages (setup_call (byte_values ''pyCroscopy'') [])"
  by (simp add: example_run bare_run) (simp add: example_kwargs_def setup_call_def)

text \<open>
  C10, amended. In every run that reaches \<^verbatim>\<open>setup\<close>, each keyword argument other than
  \<open>long_description\<close> and \<open>packages\<close> is the literal of the call, and \<open>packages\<close> is
  found from the working directory and the shape of the tree, not from what any file
  holds: two runs from the same working directory over trees of the same shape pass the
  same keyword arguments except \<open>long_description\<close>.
\<close>

theorem kwargs_independent_of_readme:
  assumes "cwd e1 = cwd e2"
    and "shape (fs e1) = shape (fs e2)"
    and "snd (setup_py e1) = Inr kw1"
    and "snd (setup_py e2) = Inr kw2"
  shows "kw1\<lparr>long_description := x\<rparr> = kw2\<lparr>long_description := x\<rparr>
         \<and> kw1 = setup_call (long_description kw1) (packages kw1)
         \<and> kw2 = setup_call (long_description kw2) (packages kw2)"
proof -
  from setup_py_Inr [OF assms(3)] obtain s1
    where kw1: "kw1 = setup_call s1 (find_packages e1 ''.'' (Str ''tests''))"
    by blast
  from setup_py_Inr [OF assms(4)] obtain s2
    where kw2: "kw2 = setup_call s2 (find_packages e2 ''.'' (Str ''tests''))"
    by blast
  have "find_packages e1 ''.'' (Str ''tests'') = find_packages e2 ''.'' (Str ''tests'')"
    using assms(2,1) by (rule find_packages_same_shape)
  with kw1 kw2 show ?thesis
    by (simp add: setup_call_def)
qed

theorem kwargs_independent_of_readme_witness:
  "cwd other_readme_env = cwd example_env
   \<and> shape (fs other_readme_env) = shape (fs example_env)
   \<and> snd (setup_py other_readme_env)
       = Inr (setup_call (byte_values ''Another text'') [''pycroscopy'', ''tests'', ''pycroscopy.io'', ''tests.unit''])
   \<and> snd (setup_py example_env) = Inr example_kwargs
   \<and> (setup_call (byte_values ''Another text'') [''pycroscopy'', ''tests'', ''pycroscopy.io'', ''tests.unit''])
        \<lparr>long_description := []\<rparr>
       = example_kwargs\<lparr>long_description := []\<rparr>"
  using kwargs_independent_of_readme
          [OF other_readme_cwd other_readme_shape other_readme_run example_run, of "[]"]
    other_readme_cwd other_readme_shape other_readme_run example_run
  by simp



end
